theory Spec2Isabelle
  imports Main
begin

section \<open>The configuration document\<close>

text \<open>
  \<^verbatim>\<open>config_shell.py\<close> loads a YAML document with \<^verbatim>\<open>yaml.load\<close>, wraps it in a
  \<^verbatim>\<open>Box\<close> and reads nested attributes of it. The values of the document are modelled by
  the datatype below: strings, integers, booleans, the null value and mappings with string
  keys (an association list, looked up with \<open>map_of\<close>). Sequences, floats, timestamps and
  mappings with keys that are not strings, which the loader can also build, are outside the
  model.
\<close>

datatype yaml =
    YStr string
  | YInt int
  | YBool bool
  | YNull
  | YMap "(string \<times> yaml) list"

text \<open>
  The exceptions the script can end with. \<open>AttributeError\<close> carries the name that was
  looked up (the error of \<^verbatim>\<open>Box\<close> for a missing key is both a \<^verbatim>\<open>KeyError\<close> and an
  \<^verbatim>\<open>AttributeError\<close>; an attribute of a string, a number or \<^verbatim>\<open>None\<close> is an
  \<^verbatim>\<open>AttributeError\<close>).
\<close>

datatype error =
    FileNotFoundError string
  | YAMLError
  | BoxValueError
  | AttributeError string
  | TypeError

text \<open>The messages of \<^verbatim>\<open>ArgumentParser.error\<close>, by kind.\<close>

datatype argparse_error =
    RequiredMissing
  | Unrecognized "string list"
  | ExpectedOneArgument
  | IgnoredExplicitArgument string
  | AmbiguousOption string

text \<open>What reaches the error stream: the usage text and message of the argument parser, or
  the traceback of an uncaught exception.\<close>

datatype diag =
    UsageText
  | ErrorText argparse_error
  | Traceback error

text \<open>
  The parts of the run that belong to libraries and are taken as parameters: the YAML
  parser (\<open>None\<close> when the text is not valid YAML), the text of a \<^verbatim>\<open>Box\<close> under
  \<^verbatim>\<open>format\<close>, the parser's pattern for negative numbers, and the help text.
\<close>

record runtime =
  yaml_load :: "string \<Rightarrow> yaml option"
  box_str :: "(string \<times> yaml) list \<Rightarrow> string"
  negative_number :: "string \<Rightarrow> bool"
  format_help :: string

text \<open>The state of the process and of its surroundings.\<close>

record world =
  stdout :: string
  stderr :: "diag list"
  files :: "string \<rightharpoonup> string"
  environ :: "string \<rightharpoonup> string"
  spawned :: "string list"

section \<open>Formatting and printing\<close>

definition nl :: char where
  "nl = CHR 0x0A"

definition dquote :: char where
  "dquote = CHR 0x22"

fun digits :: "nat \<Rightarrow> string" where
  "digits n =
     (if n < 10 then [''0123456789'' ! n]
      else digits (n div 10) @ [''0123456789'' ! (n mod 10)])"

declare digits.simps [simp del]

definition str_int :: "int \<Rightarrow> string" where
  "str_int i = (if i < 0 then CHR ''-'' # digits (nat (- i)) else digits (nat i))"

text \<open>\<^verbatim>\<open>format(v, '')\<close>, which an f-string applies to each interpolated value.\<close>

fun py_format :: "runtime \<Rightarrow> yaml \<Rightarrow> string" where
  "py_format rt (YStr s) = s"
| "py_format rt (YInt i) = str_int i"
| "py_format rt (YBool b) = (if b then ''True'' else ''False'')"
| "py_format rt YNull = ''None''"
| "py_format rt (YMap m) = box_str rt m"

text \<open>\<^verbatim>\<open>print(s)\<close>: the text and a line feed are appended to standard output.\<close>

definition print :: "string \<Rightarrow> world \<Rightarrow> world" where
  "print s w = w\<lparr>stdout := stdout w @ s @ [nl]\<rparr>"

text \<open>The lines of a text: the pieces between line feeds; a last piece with no line feed
  after it counts when it is not empty.\<close>

fun split_lines :: "string \<Rightarrow> string \<Rightarrow> string list" where
  "split_lines cur [] = (if cur = [] then [] else [cur])"
| "split_lines cur (c # cs) =
     (if c = nl then cur # split_lines [] cs else split_lines (cur @ [c]) cs)"

definition lines_of :: "string \<Rightarrow> string list" where
  "lines_of s = split_lines [] s"

section \<open>Attribute access\<close>

text \<open>
  \<^verbatim>\<open>obj.name\<close>: the value under the key \<open>name\<close> of a mapping, an error otherwise.
  (\<^verbatim>\<open>Box\<close> also finds a key that is not an identifier under the name it converts to, such
  as \<^verbatim>\<open>client name\<close> under \<^verbatim>\<open>client_name\<close>; the model looks the name up as it is.)
\<close>

fun getattr :: "yaml \<Rightarrow> string \<Rightarrow> error + yaml" where
  "getattr (YMap m) name =
     (case map_of m name of Some v \<Rightarrow> Inr v | None \<Rightarrow> Inl (AttributeError name))"
| "getattr _ name = Inl (AttributeError name)"

definition and_then :: "error + 'a \<Rightarrow> ('a \<Rightarrow> error + 'b) \<Rightarrow> error + 'b" where
  "and_then r f = (case r of Inl e \<Rightarrow> Inl e | Inr v \<Rightarrow> f v)"

text \<open>\<^verbatim>\<open>config.information.<field>\<close> and \<^verbatim>\<open>config.binaries.restic\<close>.\<close>

definition information :: "yaml \<Rightarrow> string \<Rightarrow> error + yaml" where
  "information config field = and_then (getattr config ''information'') (\<lambda>i. getattr i field)"

definition binaries_restic :: "yaml \<Rightarrow> error + yaml" where
  "binaries_restic config = and_then (getattr config ''binaries'') (\<lambda>b. getattr b ''restic'')"

section \<open>The export statements\<close>

text \<open>
  A statement \<^verbatim>\<open>print(f"export NAME={expr}")\<close>: the expression is evaluated first; when
  it raises, nothing is printed and the exception leaves the script.
\<close>

definition print_export :: "runtime \<Rightarrow> string \<Rightarrow> error + yaml \<Rightarrow> world \<Rightarrow> error option \<times> world" where
  "print_export rt name r w =
     (case r of
        Inl e \<Rightarrow> (Some e, w)
      | Inr v \<Rightarrow> (None, print (''export '' @ name @ ''='' @ py_format rt v) w))"

text \<open>The value of \<^verbatim>\<open>restic_cmd\<close>: three raw f-strings, concatenated; the attributes are
  read from left to right.\<close>

definition restic_cmd :: "runtime \<Rightarrow> yaml \<Rightarrow> string \<Rightarrow> error + string" where
  "restic_cmd rt config repo =
     and_then (binaries_restic config) (\<lambda>restic.
     and_then (information config ''rclone_connection_name'') (\<lambda>conn.
     and_then (information config ''bucket_name'') (\<lambda>bucket.
     and_then (information config ''client_name'') (\<lambda>client.
     and_then (information config ''server_name'') (\<lambda>server.
       Inr (py_format rt restic @ '' '' @
            ''-r rclone:'' @ py_format rt conn @ '':'' @ py_format rt bucket @ ''/'' @
            py_format rt client @ ''/'' @ py_format rt server @ ''/'' @ repo))))))"

definition print_restic_cmd :: "runtime \<Rightarrow> yaml \<Rightarrow> string \<Rightarrow> world \<Rightarrow> error option \<times> world" where
  "print_restic_cmd rt config repo w =
     (case restic_cmd rt config repo of
        Inl e \<Rightarrow> (Some e, w)
      | Inr c \<Rightarrow> (None, print (''export RESTIC_CMD='' @ [dquote] @ c @ [dquote]) w))"

text \<open>Statements run in order; the first exception ends the sequence.\<close>

fun run_stmts :: "(world \<Rightarrow> error option \<times> world) list \<Rightarrow> world \<Rightarrow> error option \<times> world" where
  "run_stmts [] w = (None, w)"
| "run_stmts (s # ss) w =
     (case s w of (Some e, w') \<Rightarrow> (Some e, w') | (None, w') \<Rightarrow> run_stmts ss w')"

text \<open>The six \<^verbatim>\<open>print\<close> statements of the main block, after the configuration is loaded.\<close>

definition render_exports :: "runtime \<Rightarrow> yaml \<Rightarrow> string \<Rightarrow> world \<Rightarrow> error option \<times> world" where
  "render_exports rt config repo =
     run_stmts
       [print_export rt ''RCLONE_CONNECTION_NAME'' (information config ''rclone_connection_name''),
        print_export rt ''CLIENT_NAME'' (information config ''client_name''),
        print_export rt ''BUCKET_NAME'' (information config ''bucket_name''),
        print_export rt ''SERVER_NAME'' (information config ''server_name''),
        print_export rt ''RESTIC_REPO_NAME'' (Inr (YStr repo)),
        print_restic_cmd rt config repo]"

section \<open>Loading the configuration\<close>

text \<open>A value of the argument namespace: one string, or a list of strings.\<close>

datatype argvalue = One string | Many "string list"

text \<open>
  \<^verbatim>\<open>Box(cfg, box_it_up=True)\<close>: a mapping is wrapped (the nested mappings too, which
  changes nothing in this model); a string, a number, a boolean and \<^verbatim>\<open>None\<close> are
  refused by the constructor.
\<close>

fun Box :: "yaml \<Rightarrow> error + yaml" where
  "Box (YMap m) = Inr (YMap m)"
| "Box _ = Inl BoxValueError"

text \<open>\<^verbatim>\<open>load_config\<close>: open the file, parse it, wrap the result.\<close>

fun load_config :: "runtime \<Rightarrow> (string \<rightharpoonup> string) \<Rightarrow> argvalue \<Rightarrow> error + yaml" where
  "load_config rt fs (Many _) = Inl TypeError"
| "load_config rt fs (One filename) =
     (case fs filename of
        None \<Rightarrow> Inl (FileNotFoundError filename)
      | Some text \<Rightarrow>
          (case yaml_load rt text of
             None \<Rightarrow> Inl YAMLError
           | Some cfg \<Rightarrow> Box cfg))"

section \<open>Argument parsing\<close>

text \<open>
  \<^verbatim>\<open>argument_parsing\<close> declares a parser with the option \<^verbatim>\<open>-r/--repo\<close> (required,
  one argument) and the positional \<^verbatim>\<open>config\<close> (\<^verbatim>\<open>nargs='?'\<close>, default
  \<^verbatim>\<open>"config.yml"\<close>); the parser adds \<^verbatim>\<open>-h/--help\<close> itself. What follows is
  \<^verbatim>\<open>ArgumentParser.parse_args\<close> of CPython 3.11 for this parser.
\<close>

datatype action = Help | Repo

text \<open>The table \<^verbatim>\<open>_option_string_actions\<close>, in the order of registration.\<close>

definition option_string_actions :: "(string \<times> action) list" where
  "option_string_actions = [(''-h'', Help), (''--help'', Help), (''-r'', Repo), (''--repo'', Repo)]"

text \<open>
  The class of an argument string: \<open>Arg\<close> an argument, \<open>Dashes\<close> the string \<^verbatim>\<open>--\<close>,
  \<open>Opt action option_string sep explicit_arg\<close> an option (no action: an option the parser
  does not know).
\<close>

datatype token =
    Arg
  | Dashes
  | Opt "action option" string "string option" "string option"

fun is_Opt :: "token \<Rightarrow> bool" where
  "is_Opt (Opt _ _ _ _) = True"
| "is_Opt _ = False"

definition startswith :: "string \<Rightarrow> string \<Rightarrow> bool" where
  "startswith s p = (take (length p) s = p)"

text \<open>\<^verbatim>\<open>s.partition('=')\<close>: the text before the first \<^verbatim>\<open>=\<close>, and the text after it when
  there is one.\<close>

definition partition_eq :: "string \<Rightarrow> string \<times> string option" where
  "partition_eq s =
     (let front = takeWhile (\<lambda>c. c \<noteq> CHR ''='') s
      in (front, if length front < length s then Some (drop (Suc (length front)) s) else None))"

text \<open>\<^verbatim>\<open>_get_option_tuples\<close>, called on strings of two characters or more that start with
  \<^verbatim>\<open>-\<close>.\<close>

definition get_option_tuples :: "string \<Rightarrow> token list" where
  "get_option_tuples s =
     (if s ! 1 = CHR ''-'' then
        (let (option_prefix, explicit_arg) = partition_eq s;
             sep = (case explicit_arg of None \<Rightarrow> None | Some _ \<Rightarrow> Some ''='')
         in concat (map (\<lambda>(option_string, action).
                      if startswith option_string option_prefix
                      then [Opt (Some action) option_string sep explicit_arg] else [])
                    option_string_actions))
      else
        concat (map (\<lambda>(option_string, action).
                  if option_string = take 2 s
                  then [Opt (Some action) option_string (Some []) (Some (drop 2 s))]
                  else if startswith option_string s
                  then [Opt (Some action) option_string None None] else [])
                option_string_actions))"

text \<open>\<^verbatim>\<open>_parse_optional\<close>.\<close>

definition parse_optional :: "runtime \<Rightarrow> string \<Rightarrow> argparse_error + token" where
  "parse_optional rt s =
     (if s = [] then Inr Arg
      else if hd s \<noteq> CHR ''-'' then Inr Arg
      else case map_of option_string_actions s of
        Some action \<Rightarrow> Inr (Opt (Some action) s None None)
      | None \<Rightarrow>
         if length s = 1 then Inr Arg
         else
           (let (option_string, explicit_arg) = partition_eq s
            in case (explicit_arg, map_of option_string_actions option_string) of
                 (Some e, Some action) \<Rightarrow> Inr (Opt (Some action) option_string (Some ''='') (Some e))
               | _ \<Rightarrow>
                  (case get_option_tuples s of
                     t1 # t2 # ts \<Rightarrow> Inl (AmbiguousOption s)
                   | [t] \<Rightarrow> Inr t
                   | [] \<Rightarrow>
                      if negative_number rt s then Inr Arg
                      else if CHR '' '' \<in> set s then Inr Arg
                      else Inr (Opt None s None None))))"

text \<open>The first loop of \<^verbatim>\<open>_parse_known_args\<close>: every string after \<^verbatim>\<open>--\<close> is an
  argument.\<close>

fun classify :: "runtime \<Rightarrow> string list \<Rightarrow> argparse_error + (string \<times> token) list" where
  "classify rt [] = Inr []"
| "classify rt (s # ss) =
     (if s = ''--'' then Inr ((s, Dashes) # map (\<lambda>x. (x, Arg)) ss)
      else case parse_optional rt s of
        Inl e \<Rightarrow> Inl e
      | Inr t \<Rightarrow> (case classify rt ss of Inl e \<Rightarrow> Inl e | Inr ts \<Rightarrow> Inr ((s, t) # ts)))"

subsection \<open>Consuming the strings\<close>

text \<open>
  The namespace \<^verbatim>\<open>args\<close> that \<^verbatim>\<open>parse_args\<close> returns, and the three ways it can end:
  with the namespace, with the help text on standard output and status 0, or with
  \<^verbatim>\<open>ArgumentParser.error\<close>.
\<close>

record args =
  arg_repo :: string
  arg_config :: argvalue

datatype parse_result =
    Parsed args
  | HelpExit
  | UsageError argparse_error

text \<open>
  The state of the second loop: the two attributes of the namespace (\<open>ns_repo\<close> is
  \<open>None\<close> until the option is taken, which also puts it in \<^verbatim>\<open>seen_actions\<close>), whether
  \<^verbatim>\<open>config\<close> is still in the list \<^verbatim>\<open>positionals\<close>, and \<^verbatim>\<open>extras\<close>.
\<close>

record pstate =
  ns_repo :: "string option"
  ns_config :: argvalue
  positionals :: bool
  extras :: "string list"

text \<open>The number of strings that the pattern \<^verbatim>\<open>(-*A?-*)\<close> of \<^verbatim>\<open>config\<close> matches at the
  start of a pattern.\<close>

definition match_config :: "token list \<Rightarrow> nat" where
  "match_config pat =
     (let n1 = length (takeWhile (\<lambda>t. t = Dashes) pat);
          p1 = drop n1 pat;
          n2 = (case p1 of Arg # _ \<Rightarrow> 1 | _ \<Rightarrow> 0);
          p2 = drop n2 p1;
          n3 = length (takeWhile (\<lambda>t. t = Dashes) p2)
      in n1 + n2 + n3)"

text \<open>\<^verbatim>\<open>_get_values\<close> for \<^verbatim>\<open>config\<close>: the first \<^verbatim>\<open>--\<close> is removed; no string gives the
  default, one string gives itself.\<close>

definition get_values_config :: "string list \<Rightarrow> argvalue" where
  "get_values_config arg_strings =
     (case remove1 ''--'' arg_strings of
        [] \<Rightarrow> One ''config.yml''
      | [v] \<Rightarrow> One v
      | vs \<Rightarrow> Many vs)"

text \<open>\<^verbatim>\<open>consume_positionals\<close>: with \<^verbatim>\<open>config\<close> still to parse, the match always
  succeeds and takes it off the list; the result is the number of strings consumed.\<close>

definition consume_positionals :: "pstate \<Rightarrow> (string \<times> token) list \<Rightarrow> pstate \<times> nat" where
  "consume_positionals st rest =
     (if positionals st then
        (let n = match_config (map snd rest)
         in (st\<lparr>ns_config := get_values_config (map fst (take n rest)), positionals := False\<rparr>, n))
      else (st, 0))"

text \<open>An entry of \<^verbatim>\<open>action_tuples\<close>: the help action, which has no argument, or the
  repo action with its one argument.\<close>

datatype taken = TakeHelp | TakeRepo string

text \<open>
  The loop of \<^verbatim>\<open>consume_optional\<close> for the option at the head: \<open>s\<close> is its string,
  \<open>tail\<close> the strings after it. \<^verbatim>\<open>match_argument(action, 'A')\<close> is 0 for the help action
  and 1 for repo. The result is \<^verbatim>\<open>action_tuples\<close>, the strings added to
  \<^verbatim>\<open>extras\<close>, and the number of strings consumed after the option.
\<close>

function option_loop ::
  "action option \<Rightarrow> string \<Rightarrow> string option \<Rightarrow> string option \<Rightarrow> taken list \<Rightarrow> string \<Rightarrow>
   (string \<times> token) list \<Rightarrow> argparse_error + (taken list \<times> string list \<times> nat)" where
  "option_loop action option_string sep explicit_arg action_tuples s tail =
     (case action of
        None \<Rightarrow> Inr ([], [s], 0)
      | Some Repo \<Rightarrow>
          (case explicit_arg of
             Some e \<Rightarrow> Inr (action_tuples @ [TakeRepo e], [], 0)
           | None \<Rightarrow>
               (case tail of
                  (v, Arg) # _ \<Rightarrow> Inr (action_tuples @ [TakeRepo v], [], 1)
                | _ \<Rightarrow> Inl ExpectedOneArgument))
      | Some Help \<Rightarrow>
          (case explicit_arg of
             None \<Rightarrow> Inr (action_tuples @ [TakeHelp], [], 0)
           | Some e \<Rightarrow>
               if option_string ! 1 \<noteq> CHR ''-'' \<and> e \<noteq> [] then
                 (if (sep \<noteq> None \<and> sep \<noteq> Some []) \<or> hd e = CHR ''-''
                  then Inl (IgnoredExplicitArgument e)
                  else
                    (case map_of option_string_actions [CHR ''-'', hd e] of
                       None \<Rightarrow> Inr (action_tuples @ [TakeHelp], [CHR ''-'' # e], 0)
                     | Some a \<Rightarrow>
                         if tl e = [] then
                           option_loop (Some a) [CHR ''-'', hd e] None None
                             (action_tuples @ [TakeHelp]) s tail
                         else if hd (tl e) = CHR ''='' then
                           option_loop (Some a) [CHR ''-'', hd e] (Some ''='') (Some (tl (tl e)))
                             (action_tuples @ [TakeHelp]) s tail
                         else
                           option_loop (Some a) [CHR ''-'', hd e] (Some []) (Some (tl e))
                             (action_tuples @ [TakeHelp]) s tail))
               else Inl (IgnoredExplicitArgument e)))"
  by pat_completeness auto
termination
  by (relation "measure (\<lambda>(a, os, sep, ex, ts, s, tail). case ex of None \<Rightarrow> 0 | Some e \<Rightarrow> Suc (length e))")
     (auto split: option.splits)

declare option_loop.simps [simp del]

text \<open>\<^verbatim>\<open>take_action\<close> for each entry in turn: the help action prints the help and
  exits (\<open>None\<close>), the repo action stores its argument.\<close>

fun take_actions :: "pstate \<Rightarrow> taken list \<Rightarrow> pstate option" where
  "take_actions st [] = Some st"
| "take_actions st (TakeHelp # ts) = None"
| "take_actions st (TakeRepo v # ts) = take_actions (st\<lparr>ns_repo := Some v\<rparr>) ts"

definition consume_optional ::
  "pstate \<Rightarrow> string \<Rightarrow> action option \<Rightarrow> string \<Rightarrow> string option \<Rightarrow> string option \<Rightarrow>
   (string \<times> token) list \<Rightarrow> parse_result + (pstate \<times> nat)" where
  "consume_optional st s action option_string sep explicit_arg tail =
     (case option_loop action option_string sep explicit_arg [] s tail of
        Inl e \<Rightarrow> Inl (UsageError e)
      | Inr (action_tuples, ex, n) \<Rightarrow>
          (case take_actions st action_tuples of
             None \<Rightarrow> Inl HelpExit
           | Some st' \<Rightarrow> Inr (st'\<lparr>extras := extras st' @ ex\<rparr>, n)))"

text \<open>After the loop: the positionals that follow the last option, the strings left
  over, the check of the required option, and the check of \<^verbatim>\<open>parse_args\<close> that nothing
  is left over.\<close>

definition finish :: "pstate \<Rightarrow> (string \<times> token) list \<Rightarrow> parse_result" where
  "finish st rest =
     (let (st1, n) = consume_positionals st rest;
          extras1 = extras st1 @ map fst (drop n rest)
      in case ns_repo st1 of
           None \<Rightarrow> UsageError RequiredMissing
         | Some r \<Rightarrow>
             if extras1 \<noteq> [] then UsageError (Unrecognized extras1)
             else Parsed \<lparr>arg_repo = r, arg_config = ns_config st1\<rparr>)"

definition not_option :: "string \<times> token \<Rightarrow> bool" where
  "not_option x = (\<not> is_Opt (snd x))"

text \<open>The loop \<^verbatim>\<open>while start_index <= max_option_string_index\<close>, on the strings from
  \<^verbatim>\<open>start_index\<close> on: it runs while an option is left.\<close>

function consume :: "pstate \<Rightarrow> (string \<times> token) list \<Rightarrow> parse_result" where
  "consume st rest =
     (if list_all not_option rest then finish st rest
      else case rest of
        [] \<Rightarrow> finish st rest
      | (s, Opt action option_string sep explicit_arg) # tail \<Rightarrow>
          (case consume_optional st s action option_string sep explicit_arg tail of
             Inl r \<Rightarrow> r
           | Inr (st', n) \<Rightarrow> consume st' (drop n tail))
      | _ \<Rightarrow>
          (let (st1, n) = consume_positionals st rest
           in if n > 0 then consume st1 (drop n rest)
              else
                (let st2 = st1\<lparr>extras := extras st1 @ map fst (takeWhile not_option rest)\<rparr>
                 in case dropWhile not_option rest of
                      (s', Opt action option_string sep explicit_arg) # tail' \<Rightarrow>
                        (case consume_optional st2 s' action option_string sep explicit_arg tail' of
                           Inl r \<Rightarrow> r
                         | Inr (st', n') \<Rightarrow> consume st' (drop n' tail'))
                    | _ \<Rightarrow> finish st2 [])))"
  by pat_completeness auto
termination
proof -
  have shorter: "length ys < length xs" if "dropWhile P xs = y # ys"
    for P :: "string \<times> token \<Rightarrow> bool" and xs y ys
    using that length_dropWhile_le [of P xs] by simp
  show ?thesis
    by (relation "measure (\<lambda>(st, rest). length rest)")
       (auto simp del: dropWhile.simps dest!: shorter)
qed

declare consume.simps [simp del]

text \<open>\<^verbatim>\<open>argument_parsing\<close>, on \<^verbatim>\<open>sys.argv[1:]\<close>.\<close>

definition argument_parsing :: "runtime \<Rightarrow> string list \<Rightarrow> parse_result" where
  "argument_parsing rt argv =
     (case classify rt argv of
        Inl e \<Rightarrow> UsageError e
      | Inr items \<Rightarrow>
          consume \<lparr>ns_repo = None, ns_config = One ''config.yml'', positionals = True, extras = []\<rparr>
            items)"

section \<open>The script\<close>

text \<open>
  The main block, from the argument strings and the world to the exit status and the
  world after the run. The help text goes to standard output with status 0, an error of
  the parser to the error stream with status 2, and an uncaught exception ends the run
  with its traceback on the error stream and status 1; what was printed before stays
  printed.
\<close>

definition main :: "runtime \<Rightarrow> string list \<Rightarrow> world \<Rightarrow> nat \<times> world" where
  "main rt argv w =
     (case argument_parsing rt argv of
        HelpExit \<Rightarrow> (0, w\<lparr>stdout := stdout w @ format_help rt\<rparr>)
      | UsageError e \<Rightarrow> (2, w\<lparr>stderr := stderr w @ [UsageText, ErrorText e]\<rparr>)
      | Parsed a \<Rightarrow>
          (case load_config rt (files w) (arg_config a) of
             Inl e \<Rightarrow> (1, w\<lparr>stderr := stderr w @ [Traceback e]\<rparr>)
           | Inr config \<Rightarrow>
               (case render_exports rt config (arg_repo a) w of
                  (Some e, w') \<Rightarrow> (1, w'\<lparr>stderr := stderr w' @ [Traceback e]\<rparr>)
                | (None, w') \<Rightarrow> (0, w'))))"

section \<open>Example data\<close>

text \<open>The configuration of the specification's example, a text that stands for it, and a
  runtime whose parser knows the empty document and the texts given here.\<close>

definition example_config :: yaml where
  "example_config =
     YMap [(''information'',
              YMap [(''rclone_connection_name'', YStr ''r1''), (''client_name'', YStr ''c1''),
                    (''bucket_name'', YStr ''b1''), (''server_name'', YStr ''s1'')]),
           (''binaries'', YMap [(''restic'', YStr ''/usr/bin/restic'')])]"

definition example_text :: string where
  "example_text = ''information: {rclone_connection_name: r1, client_name: c1, bucket_name: b1, server_name: s1}, binaries: {restic: /usr/bin/restic}''"

text \<open>The same configuration with a line feed in the bucket name, and one with no
  \<^verbatim>\<open>binaries\<close> section.\<close>

definition linefeed_config :: yaml where
  "linefeed_config =
     YMap [(''information'',
              YMap [(''rclone_connection_name'', YStr ''r1''), (''client_name'', YStr ''c1''),
                    (''bucket_name'', YStr [CHR ''b'', nl, CHR ''1'']),
                    (''server_name'', YStr ''s1'')]),
           (''binaries'', YMap [(''restic'', YStr ''/usr/bin/restic'')])]"

definition no_restic_config :: yaml where
  "no_restic_config =
     YMap [(''information'',
              YMap [(''rclone_connection_name'', YStr ''r1''), (''client_name'', YStr ''c1''),
                    (''bucket_name'', YStr ''b1''), (''server_name'', YStr ''s1'')])]"

definition no_restic_text :: string where
  "no_restic_text = ''information: {rclone_connection_name: r1, client_name: c1, bucket_name: b1, server_name: s1}''"


definition example_runtime :: runtime where
  "example_runtime =
     \<lparr>yaml_load = map_of [([], YNull), (example_text, example_config),
                          (no_restic_text, no_restic_config)],
      box_str = (\<lambda>m. ''{}''),
      negative_number = (\<lambda>s. False),
      format_help = ''usage: config_shell.py [-h] -r REPO [config]''\<rparr>"

definition start :: world where
  "start =
     \<lparr>stdout = [], stderr = [], files = [''config.yml'' \<mapsto> example_text],
      environ = Map.empty, spawned = []\<rparr>"

section \<open>Notions used in the statements\<close>


text \<open>The action that the parser reads a string as an option for, if any; and whether
  the parser reads some string of the argument vector as an option for a given action (for
  \<^verbatim>\<open>-r/--repo\<close>: the strings \<^verbatim>\<open>-r\<close> and \<^verbatim>\<open>--repo\<close>, their forms with an attached
  value such as \<^verbatim>\<open>-rNAME\<close> and \<^verbatim>\<open>--repo=NAME\<close>, and the abbreviations of
  \<^verbatim>\<open>--repo\<close>, before any \<^verbatim>\<open>--\<close>).\<close>

fun token_action :: "token \<Rightarrow> action option" where
  "token_action (Opt a _ _ _) = a"
| "token_action _ = None"

definition selects :: "runtime \<Rightarrow> action \<Rightarrow> string list \<Rightarrow> bool" where
  "selects rt a argv =
     (case classify rt argv of
        Inl e \<Rightarrow> False
      | Inr items \<Rightarrow> list_ex (\<lambda>x. token_action (snd x) = Some a) items)"


section \<open>Lines of a text\<close>

lemma split_lines_line:
  "nl \<notin> set s \<Longrightarrow> split_lines cur (s @ nl # rest) = (cur @ s) # split_lines [] rest"
  by (induction s arbitrary: cur) auto

lemma lines_of_line: "nl \<notin> set s \<Longrightarrow> lines_of (s @ nl # rest) = s # lines_of rest"
  by (simp add: lines_of_def split_lines_line)

lemma lines_of_records:
  "\<forall>l \<in> set ls. nl \<notin> set l \<Longrightarrow> lines_of (concat (map (\<lambda>l. l @ [nl]) ls)) = ls"
proof (induction ls)
  case Nil
  show ?case by (simp add: lines_of_def)
next
  case (Cons l ls)
  then show ?case by (simp add: lines_of_line)
qed

section \<open>The six statements\<close>

text \<open>With the five fields present every statement prints: the text that reaches
  standard output.\<close>

lemma render_exports_present:
  assumes "information config ''rclone_connection_name'' = Inr conn"
    and "information config ''client_name'' = Inr client"
    and "information config ''bucket_name'' = Inr bucket"
    and "information config ''server_name'' = Inr server"
    and "binaries_restic config = Inr restic"
  shows "render_exports rt config repo w =
     (None, w\<lparr>stdout := stdout w @ concat (map (\<lambda>l. l @ [nl])
        [''export RCLONE_CONNECTION_NAME='' @ py_format rt conn,
         ''export CLIENT_NAME='' @ py_format rt client,
         ''export BUCKET_NAME='' @ py_format rt bucket,
         ''export SERVER_NAME='' @ py_format rt server,
         ''export RESTIC_REPO_NAME='' @ repo,
         ''export RESTIC_CMD='' @ [dquote] @
           py_format rt restic @ '' -r rclone:'' @ py_format rt conn @ '':'' @
           py_format rt bucket @ ''/'' @ py_format rt client @ ''/'' @
           py_format rt server @ ''/'' @ repo @ [dquote]])\<rparr>)"
  using assms
  by (simp add: render_exports_def print_export_def print_restic_cmd_def restic_cmd_def
      and_then_def print_def)

lemma example_fields:
  "information example_config ''rclone_connection_name'' = Inr (YStr ''r1'')"
  "information example_config ''client_name'' = Inr (YStr ''c1'')"
  "information example_config ''bucket_name'' = Inr (YStr ''b1'')"
  "information example_config ''server_name'' = Inr (YStr ''s1'')"
  "binaries_restic example_config = Inr (YStr ''/usr/bin/restic'')"
  by (simp_all add: example_config_def information_def binaries_restic_def and_then_def)

text \<open>
  C1, as amended. With the four information fields and \<^verbatim>\<open>binaries.restic\<close> present, and
  no line feed in the text of any of the five values nor in the repository name, the
  statements succeed and write exactly six lines, in the order RCLONE_CONNECTION_NAME,
  CLIENT_NAME, BUCKET_NAME, SERVER_NAME, RESTIC_REPO_NAME, RESTIC_CMD, each starting with
  \<^verbatim>\<open>export \<close>; the fifth is \<^verbatim>\<open>export RESTIC_REPO_NAME=\<close> followed by the repository name.
\<close>

theorem six_export_lines:
  assumes "information config ''rclone_connection_name'' = Inr conn"
    and "information config ''client_name'' = Inr client"
    and "information config ''bucket_name'' = Inr bucket"
    and "information config ''server_name'' = Inr server"
    and "binaries_restic config = Inr restic"
    and "nl \<notin> set (py_format rt conn)" and "nl \<notin> set (py_format rt client)"
    and "nl \<notin> set (py_format rt bucket)" and "nl \<notin> set (py_format rt server)"
    and "nl \<notin> set (py_format rt restic)" and "nl \<notin> set repo"
  shows "\<exists>out cmd.
     render_exports rt config repo w = (None, w\<lparr>stdout := stdout w @ out\<rparr>) \<and>
     lines_of out =
       [''export RCLONE_CONNECTION_NAME='' @ py_format rt conn,
        ''export CLIENT_NAME='' @ py_format rt client,
        ''export BUCKET_NAME='' @ py_format rt bucket,
        ''export SERVER_NAME='' @ py_format rt server,
        ''export RESTIC_REPO_NAME='' @ repo,
        ''export RESTIC_CMD='' @ cmd]"
proof -
  let ?cmd = "[dquote] @ py_format rt restic @ '' -r rclone:'' @ py_format rt conn @ '':'' @
           py_format rt bucket @ ''/'' @ py_format rt client @ ''/'' @
           py_format rt server @ ''/'' @ repo @ [dquote]"
  let ?ls = "[''export RCLONE_CONNECTION_NAME='' @ py_format rt conn,
         ''export CLIENT_NAME='' @ py_format rt client,
         ''export BUCKET_NAME='' @ py_format rt bucket,
         ''export SERVER_NAME='' @ py_format rt server,
         ''export RESTIC_REPO_NAME='' @ repo,
         ''export RESTIC_CMD='' @ ?cmd]"
  have "render_exports rt config repo w =
      (None, w\<lparr>stdout := stdout w @ concat (map (\<lambda>l. l @ [nl]) ?ls)\<rparr>)"
    using render_exports_present [OF assms(1-5)] by simp
  moreover have "\<forall>l \<in> set ?ls. nl \<notin> set l"
    using assms(6-11) by (simp add: nl_def dquote_def)
  then have "lines_of (concat (map (\<lambda>l. l @ [nl]) ?ls)) = ?ls"
    by (rule lines_of_records)
  ultimately show ?thesis
    by blast
qed

theorem six_export_lines_witness:
  "nl \<notin> set ''myrepo'' \<and>
   (\<exists>out cmd.
     render_exports example_runtime example_config ''myrepo'' start =
       (None, start\<lparr>stdout := stdout start @ out\<rparr>) \<and>
     lines_of out =
       [''export RCLONE_CONNECTION_NAME=r1'', ''export CLIENT_NAME=c1'',
        ''export BUCKET_NAME=b1'', ''export SERVER_NAME=s1'',
        ''export RESTIC_REPO_NAME=myrepo'', ''export RESTIC_CMD='' @ cmd])"
  using six_export_lines [OF example_fields, of example_runtime "''myrepo''" start]
  by (simp add: nl_def)

text \<open>C1 as stated fails: a repository name with a line feed in it gives eight lines, and
  the fifth is not \<^verbatim>\<open>export RESTIC_REPO_NAME=\<close> followed by the name.\<close>

theorem six_export_lines_counterexample:
  "length (lines_of (stdout (snd (render_exports example_runtime example_config
      [CHR ''a'', nl, CHR ''b''] start)))) = 8 \<and>
   lines_of (stdout (snd (render_exports example_runtime example_config
      [CHR ''a'', nl, CHR ''b''] start))) ! 4 \<noteq>
     ''export RESTIC_REPO_NAME='' @ [CHR ''a'', nl, CHR ''b'']"
  by (simp add: render_exports_present [OF example_fields] start_def lines_of_def nl_def dquote_def)

lemma linefeed_fields:
  "information linefeed_config ''rclone_connection_name'' = Inr (YStr ''r1'')"
  "information linefeed_config ''client_name'' = Inr (YStr ''c1'')"
  "information linefeed_config ''bucket_name'' = Inr (YStr [CHR ''b'', nl, CHR ''1''])"
  "information linefeed_config ''server_name'' = Inr (YStr ''s1'')"
  "binaries_restic linefeed_config = Inr (YStr ''/usr/bin/restic'')"
  by (simp_all add: linefeed_config_def information_def binaries_restic_def and_then_def)

text \<open>
  C2, as amended. With the five fields present and no line feed in the text of any of the
  five values nor in the repository name, the sixth line of the output is
  \<^verbatim>\<open>export RESTIC_CMD=\<close> followed, between double quotes, by the restic binary, the
  literal \<^verbatim>\<open> -r rclone:\<close>, the connection name, \<^verbatim>\<open>:\<close>, the bucket name, \<^verbatim>\<open>/\<close>, the
  client name, \<^verbatim>\<open>/\<close>, the server name, \<^verbatim>\<open>/\<close> and the repository name; the values on
  the first five lines follow the \<^verbatim>\<open>=\<close> with no quotes added.
\<close>

theorem restic_cmd_line:
  assumes "information config ''rclone_connection_name'' = Inr conn"
    and "information config ''client_name'' = Inr client"
    and "information config ''bucket_name'' = Inr bucket"
    and "information config ''server_name'' = Inr server"
    and "binaries_restic config = Inr restic"
    and "nl \<notin> set (py_format rt conn)" and "nl \<notin> set (py_format rt client)"
    and "nl \<notin> set (py_format rt bucket)" and "nl \<notin> set (py_format rt server)"
    and "nl \<notin> set (py_format rt restic)" and "nl \<notin> set repo"
  shows "\<exists>out.
     render_exports rt config repo w = (None, w\<lparr>stdout := stdout w @ out\<rparr>) \<and>
     lines_of out ! 5 =
       ''export RESTIC_CMD='' @ [dquote] @
         py_format rt restic @ '' -r rclone:'' @ py_format rt conn @ '':'' @
         py_format rt bucket @ ''/'' @ py_format rt client @ ''/'' @
         py_format rt server @ ''/'' @ repo @ [dquote] \<and>
     take 5 (lines_of out) =
       [''export RCLONE_CONNECTION_NAME='' @ py_format rt conn,
        ''export CLIENT_NAME='' @ py_format rt client,
        ''export BUCKET_NAME='' @ py_format rt bucket,
        ''export SERVER_NAME='' @ py_format rt server,
        ''export RESTIC_REPO_NAME='' @ repo]"
proof -
  let ?ls = "[''export RCLONE_CONNECTION_NAME='' @ py_format rt conn,
         ''export CLIENT_NAME='' @ py_format rt client,
         ''export BUCKET_NAME='' @ py_format rt bucket,
         ''export SERVER_NAME='' @ py_format rt server,
         ''export RESTIC_REPO_NAME='' @ repo,
         ''export RESTIC_CMD='' @ [dquote] @
           py_format rt restic @ '' -r rclone:'' @ py_format rt conn @ '':'' @
           py_format rt bucket @ ''/'' @ py_format rt client @ ''/'' @
           py_format rt server @ ''/'' @ repo @ [dquote]]"
  have run: "render_exports rt config repo w =
      (None, w\<lparr>stdout := stdout w @ concat (map (\<lambda>l. l @ [nl]) ?ls)\<rparr>)"
    by (rule render_exports_present [OF assms(1-5)])
  have "\<forall>l \<in> set ?ls. nl \<notin> set l"
    using assms(6-11) by (simp add: nl_def dquote_def)
  then have "lines_of (concat (map (\<lambda>l. l @ [nl]) ?ls)) = ?ls"
    by (rule lines_of_records)
  then have "lines_of (concat (map (\<lambda>l. l @ [nl]) ?ls)) ! 5 = ?ls ! 5"
    and "take 5 (lines_of (concat (map (\<lambda>l. l @ [nl]) ?ls))) = take 5 ?ls"
    by simp_all
  with run show ?thesis
    by (intro exI [of _ "concat (map (\<lambda>l. l @ [nl]) ?ls)"]) simp
qed

theorem restic_cmd_line_witness:
  "nl \<notin> set ''myrepo'' \<and>
   (\<exists>out.
     render_exports example_runtime example_config ''myrepo'' start =
       (None, start\<lparr>stdout := stdout start @ out\<rparr>) \<and>
     lines_of out ! 5 =
       ''export RESTIC_CMD='' @ [dquote] @ ''/usr/bin/restic -r rclone:r1:b1/c1/s1/myrepo'' @
         [dquote] \<and>
     take 5 (lines_of out) =
       [''export RCLONE_CONNECTION_NAME=r1'', ''export CLIENT_NAME=c1'',
        ''export BUCKET_NAME=b1'', ''export SERVER_NAME=s1'',
        ''export RESTIC_REPO_NAME=myrepo''])"
  using restic_cmd_line [OF example_fields, of example_runtime "''myrepo''" start]
  by (simp add: nl_def)

text \<open>C2 as stated fails: with a line feed in the bucket name the sixth line of the
  output is the RESTIC_REPO_NAME line, not the RESTIC_CMD line.\<close>

theorem restic_cmd_line_counterexample:
  "lines_of (stdout (snd (render_exports example_runtime linefeed_config ''myrepo'' start))) ! 5
     = ''export RESTIC_REPO_NAME=myrepo'' \<and>
   lines_of (stdout (snd (render_exports example_runtime linefeed_config ''myrepo'' start))) ! 5
     \<noteq> ''export RESTIC_CMD='' @ [dquote] @ ''/usr/bin/restic -r rclone:r1:'' @
          [CHR ''b'', nl, CHR ''1''] @ ''/c1/s1/myrepo'' @ [dquote]"
  by (simp add: render_exports_present [OF linefeed_fields] start_def lines_of_def nl_def
      dquote_def)

section \<open>The effects of the statements\<close>

lemma print_export_frame:
  "\<exists>out. snd (print_export rt name r w) = w\<lparr>stdout := stdout w @ out\<rparr>"
proof (cases r)
  case (Inl e)
  then have "snd (print_export rt name r w) = w\<lparr>stdout := stdout w @ []\<rparr>"
    by (simp add: print_export_def)
  then show ?thesis by blast
next
  case (Inr v)
  then have "snd (print_export rt name r w) =
      w\<lparr>stdout := stdout w @ (''export '' @ name @ ''='' @ py_format rt v @ [nl])\<rparr>"
    by (simp add: print_export_def print_def)
  then show ?thesis by blast
qed

lemma print_restic_cmd_frame:
  "\<exists>out. snd (print_restic_cmd rt config repo w) = w\<lparr>stdout := stdout w @ out\<rparr>"
proof (cases "restic_cmd rt config repo")
  case (Inl e)
  then have "snd (print_restic_cmd rt config repo w) = w\<lparr>stdout := stdout w @ []\<rparr>"
    by (simp add: print_restic_cmd_def)
  then show ?thesis by blast
next
  case (Inr c)
  then have "snd (print_restic_cmd rt config repo w) =
      w\<lparr>stdout := stdout w @ (''export RESTIC_CMD='' @ [dquote] @ c @ [dquote] @ [nl])\<rparr>"
    by (simp add: print_restic_cmd_def print_def)
  then show ?thesis by blast
qed

lemma run_stmts_frame:
  assumes "\<And>s w. s \<in> set ss \<Longrightarrow> \<exists>out. snd (s w) = w\<lparr>stdout := stdout w @ out\<rparr>"
  shows "\<exists>out. snd (run_stmts ss w) = w\<lparr>stdout := stdout w @ out\<rparr>"
  using assms
proof (induction ss arbitrary: w)
  case Nil
  have "snd (run_stmts [] w) = w\<lparr>stdout := stdout w @ []\<rparr>" by simp
  then show ?case by blast
next
  case (Cons s ss)
  obtain r w1 where sw: "s w = (r, w1)" by (cases "s w")
  obtain o1 where o1: "w1 = w\<lparr>stdout := stdout w @ o1\<rparr>"
    using Cons.prems [of s w] sw by auto
  show ?case
  proof (cases r)
    case (Some e)
    with sw o1 show ?thesis by auto
  next
    case None
    obtain o2 where "snd (run_stmts ss w1) = w1\<lparr>stdout := stdout w1 @ o2\<rparr>"
      using Cons.IH [of w1] Cons.prems by auto
    with o1 have "snd (run_stmts ss w1) = w\<lparr>stdout := stdout w @ (o1 @ o2)\<rparr>"
      by simp
    with sw None show ?thesis by auto
  qed
qed

text \<open>
  C7. Whatever the configuration and the repository name, and whether the statements
  succeed or stop at an exception, the world after them is the world before them with some
  text appended to standard output: the error stream, the files, the environment and the
  list of executed commands are unchanged.
\<close>

theorem render_exports_only_writes_stdout:
  "\<exists>out. snd (render_exports rt config repo w) = w\<lparr>stdout := stdout w @ out\<rparr> \<and>
     stderr (snd (render_exports rt config repo w)) = stderr w \<and>
     files (snd (render_exports rt config repo w)) = files w \<and>
     environ (snd (render_exports rt config repo w)) = environ w \<and>
     spawned (snd (render_exports rt config repo w)) = spawned w"
proof -
  have "\<exists>out. snd (render_exports rt config repo w) = w\<lparr>stdout := stdout w @ out\<rparr>"
    unfolding render_exports_def
    by (rule run_stmts_frame) (auto simp: print_export_frame print_restic_cmd_frame)
  then obtain out where "snd (render_exports rt config repo w) = w\<lparr>stdout := stdout w @ out\<rparr>"
    by blast
  then show ?thesis
    by (intro exI [of _ out]) simp
qed

section \<open>Missing fields\<close>






lemma parse_repo_only:
  "argument_parsing example_runtime [''-r'', ''myrepo''] =
     Parsed \<lparr>arg_repo = ''myrepo'', arg_config = One ''config.yml''\<rparr>"
  by code_simp

lemma example_texts_differ:
  "example_text \<noteq> no_restic_text" "no_restic_text \<noteq> example_text"
  "no_restic_text \<noteq> []" "example_text \<noteq> []"
  by (simp_all add: example_text_def no_restic_text_def)



section \<open>Verbatim interpolation\<close>





section \<open>Loading\<close>

lemma Box_result: "Box cfg = Inr c \<Longrightarrow> \<exists>m. cfg = YMap m \<and> c = YMap m"
  by (cases cfg) auto

lemma load_config_result:
  "load_config rt fs (One p) = Inr cfg \<Longrightarrow>
     \<exists>text m. fs p = Some text \<and> yaml_load rt text = Some cfg \<and> cfg = YMap m"
  by (auto split: option.splits dest: Box_result)

text \<open>
  C4. \<^verbatim>\<open>load_config\<close> on a path with no file fails with the file-not-found error for
  that path; on a file whose text is not valid YAML it fails with the parse error; and
  when it succeeds, its result is the mapping that the text of the file parses to. When
  the arguments name a path with no file, the script ends with status 1 and the traceback
  of the file-not-found error on the error stream, and nothing on standard output.
\<close>

theorem load_config_outcomes:
  "(fs p = None \<longrightarrow> load_config rt fs (One p) = Inl (FileNotFoundError p)) \<and>
   (fs p = Some text \<and> yaml_load rt text = None \<longrightarrow> load_config rt fs (One p) = Inl YAMLError) \<and>
   (load_config rt fs (One p) = Inr cfg \<longrightarrow>
      (\<exists>text m. fs p = Some text \<and> yaml_load rt text = Some cfg \<and> cfg = YMap m)) \<and>
   (argument_parsing rt argv = Parsed a \<and> arg_config a = One q \<and> files w q = None \<longrightarrow>
      main rt argv w = (1, w\<lparr>stderr := stderr w @ [Traceback (FileNotFoundError q)]\<rparr>))"
proof (intro conjI impI)
  assume "fs p = None"
  then show "load_config rt fs (One p) = Inl (FileNotFoundError p)"
    by simp
next
  assume "fs p = Some text \<and> yaml_load rt text = None"
  then show "load_config rt fs (One p) = Inl YAMLError"
    by simp
next
  assume "load_config rt fs (One p) = Inr cfg"
  then show "\<exists>text m. fs p = Some text \<and> yaml_load rt text = Some cfg \<and> cfg = YMap m"
    by (rule load_config_result)
next
  assume "argument_parsing rt argv = Parsed a \<and> arg_config a = One q \<and> files w q = None"
  then show "main rt argv w = (1, w\<lparr>stderr := stderr w @ [Traceback (FileNotFoundError q)]\<rparr>)"
    by (simp add: main_def)
qed

theorem load_config_outcomes_witness:
  "load_config example_runtime [''config.yml'' \<mapsto> example_text] (One ''other.yml'') =
     Inl (FileNotFoundError ''other.yml'') \<and>
   load_config example_runtime [''config.yml'' \<mapsto> ''{''] (One ''config.yml'') = Inl YAMLError \<and>
   load_config example_runtime [''config.yml'' \<mapsto> example_text] (One ''config.yml'') =
     Inr example_config \<and>
   main example_runtime [''-r'', ''myrepo''] (start\<lparr>files := Map.empty\<rparr>) =
     (1, start\<lparr>files := Map.empty, stderr := [Traceback (FileNotFoundError ''config.yml'')]\<rparr>)"
proof -
  let ?a = "\<lparr>arg_repo = ''myrepo'', arg_config = One ''config.yml''\<rparr>"
  have lo: "yaml_load example_runtime ''{'' = None"
    by (simp add: example_runtime_def example_text_def no_restic_text_def)
  have ok: "load_config example_runtime [''config.yml'' \<mapsto> example_text] (One ''config.yml'') =
     Inr example_config"
    by (simp add: example_runtime_def example_texts_differ example_config_def)
  have 1: "load_config example_runtime [''config.yml'' \<mapsto> example_text] (One ''other.yml'') =
     Inl (FileNotFoundError ''other.yml'')"
    using load_config_outcomes [of "[''config.yml'' \<mapsto> example_text]" "''other.yml''"
        example_runtime]
    by simp
  have 2: "load_config example_runtime [''config.yml'' \<mapsto> ''{''] (One ''config.yml'') = Inl YAMLError"
    using load_config_outcomes [of "[''config.yml'' \<mapsto> ''{'']" "''config.yml''"
        example_runtime "''{''"] lo
    by simp
  have 3: "\<exists>text m. [''config.yml'' \<mapsto> example_text] ''config.yml'' = Some text \<and>
      yaml_load example_runtime text = Some example_config \<and> example_config = YMap m"
    using load_config_outcomes [of "[''config.yml'' \<mapsto> example_text]" "''config.yml''"
        example_runtime _ example_config] ok
    by simp
  have 4: "main example_runtime [''-r'', ''myrepo''] (start\<lparr>files := Map.empty\<rparr>) =
     (1, start\<lparr>files := Map.empty, stderr := [Traceback (FileNotFoundError ''config.yml'')]\<rparr>)"
    using load_config_outcomes [of _ _ example_runtime _ _ "[''-r'', ''myrepo'']" ?a
        "''config.yml''" "start\<lparr>files := Map.empty\<rparr>"] parse_repo_only
    by (simp add: start_def)
  from 1 2 ok 4 show ?thesis by simp
qed




section \<open>The argument parser\<close>

text \<open>One turn of the loop, by the kind of the first string.\<close>

lemma not_option_simps [simp]:
  "not_option (s, Arg)" "not_option (s, Dashes)" "\<not> not_option (s, Opt a os sep ex)"
  by (simp_all add: not_option_def)

lemma consume_no_option: "list_all not_option rest \<Longrightarrow> consume st rest = finish st rest"
  by (simp add: consume.simps)

lemma consume_option:
  "consume st ((s, Opt a os sep ex) # tail) =
     (case consume_optional st s a os sep ex tail of
        Inl r \<Rightarrow> r
      | Inr (st', n) \<Rightarrow> consume st' (drop n tail))"
  by (simp add: consume.simps [of st "(s, Opt a os sep ex) # tail"])

lemma consume_argument:
  assumes "\<not> list_all not_option ((s, t) # tail)" and "\<not> is_Opt t"
  shows "consume st ((s, t) # tail) =
     (let (st1, n) = consume_positionals st ((s, t) # tail)
      in if n > 0 then consume st1 (drop n ((s, t) # tail))
         else
           (let st2 = st1\<lparr>extras := extras st1 @ map fst (takeWhile not_option ((s, t) # tail))\<rparr>
            in case dropWhile not_option ((s, t) # tail) of
                 (s', Opt a os sep ex) # tail' \<Rightarrow>
                   (case consume_optional st2 s' a os sep ex tail' of
                      Inl r \<Rightarrow> r
                    | Inr (st', n') \<Rightarrow> consume st' (drop n' tail'))
               | _ \<Rightarrow> finish st2 []))"
proof (cases t)
  case Arg
  show ?thesis
    unfolding Arg using assms(1) [unfolded Arg]
    by (simp add: consume.simps [of st "(s, Arg) # tail"])
next
  case Dashes
  show ?thesis
    unfolding Dashes using assms(1) [unfolded Dashes]
    by (simp add: consume.simps [of st "(s, Dashes) # tail"])
next
  case (Opt a os sep ex)
  with assms(2) show ?thesis by simp
qed

lemma consume_positionals_repo: "ns_repo (fst (consume_positionals st rest)) = ns_repo st"
  by (simp add: consume_positionals_def Let_def)

lemma finish_no_repo: "ns_repo st = None \<Longrightarrow> finish st rest = UsageError RequiredMissing"
  using consume_positionals_repo [of st rest]
  by (cases "consume_positionals st rest") (simp add: finish_def Let_def)

lemma finish_not_help: "finish st rest \<noteq> HelpExit"
  by (simp add: finish_def Let_def split: prod.splits option.splits)

text \<open>What the loop of \<open>consume_optional\<close> returns for each kind of option.\<close>

lemma option_loop_unknown: "option_loop None os sep ex ts s tail = Inr ([], [s], 0)"
  by (simp add: option_loop.simps)

lemma option_loop_repo:
  "option_loop (Some Repo) os sep ex ts s tail = Inr r \<Longrightarrow>
     \<exists>v n. r = (ts @ [TakeRepo v], [], n)"
  by (auto simp: option_loop.simps [of "Some Repo"] split: option.splits list.splits
      token.splits prod.splits)

lemma option_loop_keeps:
  "option_loop a os sep ex ts s tail = Inr (ts', x, n) \<Longrightarrow> a \<noteq> None \<Longrightarrow> set ts \<subseteq> set ts'"
proof (induction a os sep ex ts s tail arbitrary: ts' x n rule: option_loop.induct)
  case (1 action option_string sep explicit_arg action_tuples s tail)
  note eq = "1.prems"(1) [unfolded
      option_loop.simps [of action option_string sep explicit_arg action_tuples s tail]]
  from "1.prems"(2) obtain a where a: "action = Some a" by auto
  show ?case
  proof (cases a)
    case Repo
    with eq a show ?thesis
      by (auto split: option.splits list.splits token.splits prod.splits)
  next
    case Help
    show ?thesis
    proof (cases explicit_arg)
      case None
      with eq a Help show ?thesis by auto
    next
      case (Some e)
      show ?thesis
      proof (cases "map_of option_string_actions [CHR ''-'', hd e]")
        case None
        with eq a Help Some show ?thesis
          by (auto split: if_splits)
      next
        case (Some b)
        have go: "option_string ! 1 \<noteq> CHR ''-'' \<and> e \<noteq> []"
          and nosep: "\<not> ((sep \<noteq> None \<and> sep \<noteq> Some []) \<or> hd e = CHR ''-'')"
          using eq a Help \<open>explicit_arg = Some e\<close> by (auto split: if_splits)
        have "set (action_tuples @ [TakeHelp]) \<subseteq> set ts'"
        proof (cases "tl e = []")
          case True
          with eq a Help \<open>explicit_arg = Some e\<close> Some go nosep
          have "option_loop (Some b) [CHR ''-'', hd e] None None (action_tuples @ [TakeHelp]) s tail
              = Inr (ts', x, n)"
            by (simp split: if_splits)
          then show ?thesis
            using "1.IH"(1) [OF a Help \<open>explicit_arg = Some e\<close> go nosep Some True] by simp
        next
          case False
          show ?thesis
          proof (cases "hd (tl e) = CHR ''=''")
            case True
            with False eq a Help \<open>explicit_arg = Some e\<close> Some go nosep
            have "option_loop (Some b) [CHR ''-'', hd e] (Some ''='') (Some (tl (tl e)))
                (action_tuples @ [TakeHelp]) s tail = Inr (ts', x, n)"
              by (simp split: if_splits)
            then show ?thesis
              using "1.IH"(2) [OF a Help \<open>explicit_arg = Some e\<close> go nosep Some False True]
              by simp
          next
            case ne: False
            with False eq a Help \<open>explicit_arg = Some e\<close> Some go nosep
            have "option_loop (Some b) [CHR ''-'', hd e] (Some []) (Some (tl e))
                (action_tuples @ [TakeHelp]) s tail = Inr (ts', x, n)"
              by (simp split: if_splits)
            then show ?thesis
              using "1.IH"(3) [OF a Help \<open>explicit_arg = Some e\<close> go nosep Some False ne]
              by simp
          qed
        qed
        then show ?thesis by auto
      qed
    qed
  qed
qed

lemma option_loop_help:
  "option_loop (Some Help) os sep ex ts s tail = Inr (ts', x, n) \<Longrightarrow> TakeHelp \<in> set ts'"
  apply (subst (asm) option_loop.simps)
  apply (auto split: option.splits if_splits dest!: option_loop_keeps)
  done

lemma take_actions_help: "TakeHelp \<in> set ts \<Longrightarrow> take_actions st ts = None"
proof (induction ts arbitrary: st)
  case Nil
  then show ?case by simp
next
  case (Cons t ts)
  then show ?case by (cases t) auto
qed

lemma consume_optional_unknown:
  "consume_optional st s None os sep ex tail = Inr (st\<lparr>extras := extras st @ [s]\<rparr>, 0)"
  by (simp add: consume_optional_def option_loop_unknown)

lemma consume_optional_help:
  "consume_optional st s (Some Help) os sep ex tail = Inl HelpExit \<or>
   (\<exists>e. consume_optional st s (Some Help) os sep ex tail = Inl (UsageError e))"
proof (cases "option_loop (Some Help) os sep ex [] s tail")
  case (Inl e)
  then show ?thesis by (simp add: consume_optional_def)
next
  case (Inr r)
  obtain ts x n where r: "r = (ts, x, n)" by (cases r)
  with Inr have "take_actions st ts = None"
    by (auto dest: option_loop_help intro: take_actions_help)
  with Inr r show ?thesis by (simp add: consume_optional_def)
qed

lemma consume_optional_repo:
  "(\<exists>e. consume_optional st s (Some Repo) os sep ex tail = Inl (UsageError e)) \<or>
   (\<exists>v n. consume_optional st s (Some Repo) os sep ex tail = Inr (st\<lparr>ns_repo := Some v\<rparr>, n))"
proof (cases "option_loop (Some Repo) os sep ex [] s tail")
  case (Inl e)
  then show ?thesis by (simp add: consume_optional_def)
next
  case (Inr r)
  then obtain v n where "r = ([TakeRepo v], [], n)"
    using option_loop_repo [of os sep ex "[]" s tail r] by auto
  with Inr show ?thesis by (auto simp: consume_optional_def)
qed

text \<open>With no repo option among the strings, the parser never returns a namespace; with
  no help option either, it ends with an error.\<close>

lemma consume_without_repo:
  assumes "ns_repo st = None"
    and "\<forall>x \<in> set rest. token_action (snd x) \<noteq> Some Repo"
  shows "consume st rest = HelpExit \<or> (\<exists>e. consume st rest = UsageError e)"
  using assms
proof (induction "length rest" arbitrary: st rest rule: less_induct)
  case less
  show ?case
  proof (cases "list_all not_option rest")
    case True
    then show ?thesis
      using less.prems(1) by (simp add: consume_no_option finish_no_repo)
  next
    case False
    then obtain s t tail where rest: "rest = (s, t) # tail"
      by (cases rest) auto
    have step: "consume st' (drop n tail') = HelpExit \<or> (\<exists>e. consume st' (drop n tail') = UsageError e)"
      if "ns_repo st' = None" and "set tail' \<subseteq> set rest" and "length tail' < length rest"
      for st' n tail'
    proof (rule less.hyps)
      show "length (drop n tail') < length rest" using that(3) by simp
      show "ns_repo st' = None" by (rule that(1))
      show "\<forall>x\<in>set (drop n tail'). token_action (snd x) \<noteq> Some Repo"
        using less.prems(2) that(2) set_drop_subset [of n tail'] by blast
    qed
    have opt: "(case consume_optional st' s' a os sep ex tail' of
                  Inl r \<Rightarrow> r
                | Inr (st'', n) \<Rightarrow> consume st'' (drop n tail')) = HelpExit \<or>
        (\<exists>e. (case consume_optional st' s' a os sep ex tail' of
                  Inl r \<Rightarrow> r
                | Inr (st'', n) \<Rightarrow> consume st'' (drop n tail')) = UsageError e)"
      if "ns_repo st' = None" and "a \<noteq> Some Repo" and "set tail' \<subseteq> set rest"
        and "length tail' < length rest"
      for st' s' a os sep ex tail'
    proof (cases a)
      case None
      then show ?thesis
        using step [of "st'\<lparr>extras := extras st' @ [s']\<rparr>" tail' 0] that
        by (simp add: consume_optional_unknown)
    next
      case (Some b)
      with that(2) have "a = Some Help" by (cases b) auto
      then show ?thesis
        using consume_optional_help [of st' s' os sep ex tail'] by auto
    qed
    have arg: ?thesis if t: "\<not> is_Opt t"
    proof -
      obtain st1 n where cp: "consume_positionals st rest = (st1, n)"
        by (cases "consume_positionals st rest")
      then have st1: "ns_repo st1 = None"
        using consume_positionals_repo [of st rest] less.prems(1) by simp
      let ?st2 = "st1\<lparr>extras := extras st1 @ map fst (takeWhile not_option rest)\<rparr>"
      have st2: "ns_repo ?st2 = None" using st1 by simp
      show ?thesis
      proof (cases "n > 0")
        case True
        have "consume st1 (drop n rest) = HelpExit \<or> (\<exists>e. consume st1 (drop n rest) = UsageError e)"
        proof (rule less.hyps)
          show "length (drop n rest) < length rest" using True rest by simp
          show "ns_repo st1 = None" by (rule st1)
          show "\<forall>x\<in>set (drop n rest). token_action (snd x) \<noteq> Some Repo"
            using less.prems(2) set_drop_subset [of n rest] by blast
        qed
        then show ?thesis
          using consume_argument [of s t tail st] False t rest cp True by simp
      next
        case n0: False
        show ?thesis
        proof (cases "dropWhile not_option rest")
          case Nil
          then show ?thesis
            using consume_argument [of s t tail st] False t rest cp n0 finish_no_repo [OF st2]
            by simp
        next
          case (Cons y tail')
          obtain s' t' where y: "y = (s', t')" by (cases y)
          have sub: "set tail' \<subseteq> set rest"
            using Cons set_dropWhileD [of _ not_option rest] by auto
          have len: "length tail' < length rest"
            using Cons length_dropWhile_le [of not_option rest] by simp
          have mem: "(s', t') \<in> set rest"
            using Cons y set_dropWhileD [of "(s', t')" not_option rest] by simp
          show ?thesis
          proof (cases t')
            case (Opt a os sep ex)
            then have "a \<noteq> Some Repo"
              using less.prems(2) mem by auto
            from opt [OF st2 this sub len, of s' os sep ex]
            show ?thesis
              using consume_argument [of s t tail st] False t rest cp n0 Cons y Opt
              by simp
          next
            case Arg
            then show ?thesis
              using consume_argument [of s t tail st] False t rest cp n0 Cons y
                finish_no_repo [OF st2]
              by simp
          next
            case Dashes
            then show ?thesis
              using consume_argument [of s t tail st] False t rest cp n0 Cons y
                finish_no_repo [OF st2]
              by simp
          qed
        qed
      qed
    qed
    show ?thesis
    proof (cases t)
      case (Opt a os sep ex)
      then have "a \<noteq> Some Repo"
        using less.prems(2) rest by auto
      then show ?thesis
        using opt [of st a tail s os sep ex] less.prems(1) rest Opt
        by (auto simp: consume_option)
    next
      case Arg
      then show ?thesis
        using arg rest by simp
    next
      case Dashes
      then show ?thesis
        using arg rest by simp
    qed
  qed
qed

lemma consume_without_help:
  assumes "\<forall>x \<in> set rest. token_action (snd x) \<noteq> Some Help"
  shows "consume st rest \<noteq> HelpExit"
  using assms
proof (induction "length rest" arbitrary: st rest rule: less_induct)
  case less
  show ?case
  proof (cases "list_all not_option rest")
    case True
    then show ?thesis
      by (simp add: consume_no_option finish_not_help)
  next
    case False
    then obtain s t tail where rest: "rest = (s, t) # tail"
      by (cases rest) auto
    have opt: "(case consume_optional st' s' a os sep ex tail' of
                  Inl r \<Rightarrow> r
                | Inr (st'', n) \<Rightarrow> consume st'' (drop n tail')) \<noteq> HelpExit"
      if "a \<noteq> Some Help" and "set tail' \<subseteq> set rest" and "length tail' < length rest"
      for st' s' a os sep ex tail'
    proof -
      have step: "consume st'' (drop n tail') \<noteq> HelpExit" for st'' n
      proof (rule less.hyps)
        show "length (drop n tail') < length rest" using that(3) by simp
        show "\<forall>x\<in>set (drop n tail'). token_action (snd x) \<noteq> Some Help"
          using less.prems that(2) set_drop_subset [of n tail'] by blast
      qed
      show ?thesis
      proof (cases a)
        case None
        then show ?thesis
          using step [of "st'\<lparr>extras := extras st' @ [s']\<rparr>" 0]
          by (simp add: consume_optional_unknown)
      next
        case (Some b)
        with that(1) have "a = Some Repo" by (cases b) auto
        then show ?thesis
          using consume_optional_repo [of st' s' os sep ex tail'] step by auto
      qed
    qed
    have arg: ?thesis if t: "\<not> is_Opt t"
    proof -
      obtain st1 n where cp: "consume_positionals st rest = (st1, n)"
        by (cases "consume_positionals st rest")
      let ?st2 = "st1\<lparr>extras := extras st1 @ map fst (takeWhile not_option rest)\<rparr>"
      show ?thesis
      proof (cases "n > 0")
        case True
        have "consume st1 (drop n rest) \<noteq> HelpExit"
        proof (rule less.hyps)
          show "length (drop n rest) < length rest" using True rest by simp
          show "\<forall>x\<in>set (drop n rest). token_action (snd x) \<noteq> Some Help"
            using less.prems set_drop_subset [of n rest] by blast
        qed
        then show ?thesis
          using consume_argument [of s t tail st] False t rest cp True by simp
      next
        case n0: False
        show ?thesis
        proof (cases "dropWhile not_option rest")
          case Nil
          then show ?thesis
            using consume_argument [of s t tail st] False t rest cp n0 finish_not_help
            by simp
        next
          case (Cons y tail')
          obtain s' t' where y: "y = (s', t')" by (cases y)
          have sub: "set tail' \<subseteq> set rest"
            using Cons set_dropWhileD [of _ not_option rest] by auto
          have len: "length tail' < length rest"
            using Cons length_dropWhile_le [of not_option rest] by simp
          have mem: "(s', t') \<in> set rest"
            using Cons y set_dropWhileD [of "(s', t')" not_option rest] by simp
          show ?thesis
          proof (cases t')
            case (Opt a os sep ex)
            then have "a \<noteq> Some Help"
              using less.prems mem by auto
            from opt [OF this sub len, of ?st2 s' os sep ex]
            show ?thesis
              using consume_argument [of s t tail st] False t rest cp n0 Cons y Opt
              by simp
          next
            case Arg
            then show ?thesis
              using consume_argument [of s t tail st] False t rest cp n0 Cons y finish_not_help
              by simp
          next
            case Dashes
            then show ?thesis
              using consume_argument [of s t tail st] False t rest cp n0 Cons y finish_not_help
              by simp
          qed
        qed
      qed
    qed
    show ?thesis
    proof (cases t)
      case (Opt a os sep ex)
      then have "a \<noteq> Some Help"
        using less.prems rest by auto
      then show ?thesis
        using opt [of a tail st s os sep ex] rest Opt
        by (auto simp: consume_option)
    next
      case Arg
      then show ?thesis using arg by simp
    next
      case Dashes
      then show ?thesis using arg by simp
    qed
  qed
qed

lemma not_selects:
  "classify rt argv = Inr items \<Longrightarrow> \<not> selects rt a argv \<Longrightarrow>
     \<forall>x \<in> set items. token_action (snd x) \<noteq> Some a"
  by (simp add: selects_def list_ex_iff)

lemma parse_without_repo:
  assumes "\<not> selects rt Repo argv"
  shows "argument_parsing rt argv = HelpExit \<or> (\<exists>e. argument_parsing rt argv = UsageError e)"
proof (cases "classify rt argv")
  case (Inl e)
  then show ?thesis by (simp add: argument_parsing_def)
next
  case (Inr items)
  then show ?thesis
    using consume_without_repo [OF _ not_selects [OF Inr assms]]
    by (simp add: argument_parsing_def)
qed

lemma parse_without_help:
  assumes "\<not> selects rt Help argv"
  shows "argument_parsing rt argv \<noteq> HelpExit"
proof (cases "classify rt argv")
  case (Inl e)
  then show ?thesis by (simp add: argument_parsing_def)
next
  case (Inr items)
  then show ?thesis
    using consume_without_help [OF not_selects [OF Inr assms]]
    by (simp add: argument_parsing_def)
qed

lemma parse_help: "argument_parsing rt [''-h''] = HelpExit"
  by (simp add: argument_parsing_def parse_optional_def option_string_actions_def consume_option
      consume_optional_def option_loop.simps)

lemma classify_help: "classify rt [''-h''] = Inr [(''-h'', Opt (Some Help) ''-h'' None None)]"
  by (simp add: parse_optional_def option_string_actions_def)

text \<open>
  C3, as amended. When the parser reads no string of the argument vector as the option
  \<^verbatim>\<open>-r/--repo\<close> and none as the option \<^verbatim>\<open>-h/--help\<close>, the script ends with status 2, the
  usage text and an error message on the error stream, and nothing written to standard
  output.
\<close>

theorem usage_error_without_repo:
  assumes "\<not> selects rt Repo argv" and "\<not> selects rt Help argv"
  shows "\<exists>e. main rt argv w = (2, w\<lparr>stderr := stderr w @ [UsageText, ErrorText e]\<rparr>)"
  using parse_without_repo [OF assms(1)] parse_without_help [OF assms(2)]
  by (auto simp: main_def)

theorem usage_error_without_repo_witness:
  "\<not> selects example_runtime Repo [''backup.yml''] \<and>
   \<not> selects example_runtime Help [''backup.yml''] \<and>
   main example_runtime [''backup.yml''] start =
     (2, start\<lparr>stderr := [UsageText, ErrorText RequiredMissing]\<rparr>)"
proof -
  have c: "classify example_runtime [''backup.yml''] = Inr [(''backup.yml'', Arg)]"
    by (simp add: parse_optional_def)
  have r: "\<not> selects example_runtime Repo [''backup.yml'']"
    and h: "\<not> selects example_runtime Help [''backup.yml'']"
    unfolding selects_def c by simp_all
  have "argument_parsing example_runtime [''backup.yml''] = UsageError RequiredMissing"
    unfolding argument_parsing_def c
    by (simp add: consume_no_option finish_no_repo)
  then have "main example_runtime [''backup.yml''] start =
     (2, start\<lparr>stderr := [UsageText, ErrorText RequiredMissing]\<rparr>)"
    using usage_error_without_repo [OF r h, of start]
    by (auto simp: main_def start_def)
  with r h show ?thesis by simp
qed

text \<open>C3 as stated fails: with \<^verbatim>\<open>-h\<close> alone the argument vector has no repo option, and
  the script prints the help text on standard output and exits with status 0, with
  nothing on the error stream.\<close>

theorem usage_error_without_repo_counterexample:
  "\<not> selects example_runtime Repo [''-h''] \<and>
   main example_runtime [''-h''] start =
     (0, start\<lparr>stdout := format_help example_runtime\<rparr>)"
  unfolding selects_def classify_help main_def parse_help
  by (simp add: start_def)

section \<open>What the output depends on\<close>





section \<open>The repo option and the positional\<close>





















end
